theory Spec2Isabelle
  imports Complex_Main "HOL-Library.Word"
begin

section \<open>The eRPC Nexus (src/nexus.h)\<close>

text \<open>
  The header declares the per-process Nexus, the hooks that Rpc threads share with it and
  the context of its background threads. Two member functions have their bodies in the
  header (\<open>get_hostname\<close> and \<open>bg_thread_func\<close>); the others are declared only.
\<close>

subsection \<open>Pointers and outcomes\<close>

text \<open>A pointer is an address; address 0 is \<open>nullptr\<close>.\<close>

type_synonym addr = nat

definition nullptr :: addr where
  "nullptr = 0"

text \<open>
  The errors of a call. \<open>AssertionFailed\<close> is a failed \<open>assert\<close>.
  \<open>ConstructionFailure\<close>, \<open>InvalidRequestType\<close>, \<open>RegistrationClosed\<close>, \<open>DuplicateIdentity\<close>
  and \<open>NotRegistered\<close> are the errors of the operations whose bodies are not in the
  header. \<open>LockHeld\<close>, \<open>InvalidPointer\<close> and \<open>OutOfBounds\<close> make explicit what C++ leaves
  undefined: locking a mutex that is held, following a pointer to no hook, indexing
  beyond an array. A result of type \<open>error + 'a\<close> is \<open>Inl e\<close> for a call that fails and
  reports the error \<open>e\<close> to its caller, and \<open>Inr v\<close> for a call that succeeds with the
  value \<open>v\<close>.
\<close>

datatype error =
    AssertionFailed
  | ConstructionFailure
  | InvalidRequestType
  | RegistrationClosed
  | DuplicateIdentity
  | NotRegistered
  | LockHeld
  | InvalidPointer
  | OutOfBounds

subsection \<open>Data\<close>

text \<open>
  \<open>struct bg_work_item_t\<close>. Its \<open>app_tid\<close> field is called \<open>wi_app_tid\<close> here, because
  \<open>NexusHook\<close> has a field of the same name. \<open>Session *\<close> and \<open>Session::sslot_t *\<close> are
  opaque handles.
\<close>

record bg_work_item_t =
  wi_app_tid :: "8 word"
  session :: addr
  sslot :: addr

text \<open>
  \<open>class NexusHook\<close>. An \<open>MtList<T *>\<close> is the list of its elements, oldest first; a
  work item stands for the pointer to it. \<open>bg_req_list_arr\<close> has one entry for each of the
  \<open>kMaxBgThreads\<close> background threads, the address of that thread's request list.
\<close>

record NexusHook =
  app_tid :: "8 word"
  sm_pkt_list :: "addr list"
  bg_resp_list :: "bg_work_item_t list"
  bg_req_list_arr :: "addr list"

text \<open>
  \<open>class BgThreadCtx\<close>. \<open>bg_kill_switch\<close> is a pointer to the switch of the Nexus. The
  pointer \<open>reg_hooks_arr\<close> is called \<open>reg_hooks_arr_ptr\<close> here: the name \<open>reg_hooks_arr\<close>
  is kept for the array of the Nexus that it points to.
\<close>

record BgThreadCtx =
  bg_kill_switch :: addr
  bg_thread_id :: nat
  bg_req_list :: "bg_work_item_t list"
  reg_hooks_arr_ptr :: addr

text \<open>
  What a background thread can reach and change: its own context (passed by pointer), the
  hooks behind \<open>reg_hooks_arr\<close>, and the time it has spent in \<open>usleep\<close>.
\<close>

record bg_world =
  ctx :: BgThreadCtx
  hooks :: "addr \<Rightarrow> NexusHook option"
  slept_us :: nat

subsection \<open>\<open>Nexus::get_hostname(char *)\<close>\<close>

text \<open>
  \<open>gethostname\<close> is the C library's; it is a parameter, a function of the buffer, the
  length and the state of the operating system and memory, returning its \<open>int\<close> result and
  the new state. \<open>kMaxHostnameLen\<close> is declared in \<open>common.h\<close> and is a parameter too.
\<close>

definition get_hostname ::
  "(addr \<Rightarrow> nat \<Rightarrow> 'os \<Rightarrow> int \<times> 'os) \<Rightarrow> nat \<Rightarrow> addr \<Rightarrow> 'os \<Rightarrow> error + (int \<times> 'os)" where
  "get_hostname gethostname kMaxHostnameLen hostname os =
     (if hostname \<noteq> nullptr
      then (let ret = gethostname hostname kMaxHostnameLen os in Inr ret)
      else Inl AssertionFailed)"

subsection \<open>\<open>Nexus::bg_thread_func(BgThreadCtx *)\<close>\<close>

definition usleep :: "nat \<Rightarrow> bg_world \<Rightarrow> bg_world" where
  "usleep us w = w\<lparr>slept_us := slept_us w + us\<rparr>"

text \<open>
  The kill switch is read through a pointer to \<open>volatile bool\<close>, and another thread
  writes it. \<open>vol p k\<close> is the value that the \<open>k\<close>-th evaluation of the loop condition
  reads at address \<open>p\<close>. \<open>bg_thread_loop\<close> is the \<open>while\<close> loop from its \<open>k\<close>-th
  evaluation on; a loop that never reads \<open>true\<close> does not return, which is \<open>None\<close>.
\<close>

partial_function (option) bg_thread_loop ::
  "(nat \<Rightarrow> bool) \<Rightarrow> nat \<Rightarrow> bg_world \<Rightarrow> bg_world option" where
  "bg_thread_loop reads k w =
     (if reads k \<noteq> True then bg_thread_loop reads (Suc k) (usleep 200000 w) else Some w)"

declare bg_thread_loop.simps [code]

definition bg_thread_func :: "(addr \<Rightarrow> nat \<Rightarrow> bool) \<Rightarrow> bg_world \<Rightarrow> bg_world option" where
  "bg_thread_func vol w =
     (let bg_kill_switch = bg_kill_switch (ctx w)
      in bg_thread_loop (vol bg_kill_switch) 0 w)"

subsection \<open>The Nexus\<close>

text \<open>
  \<open>class Nexus\<close>, the members that the operations below read or write. \<open>'ops\<close> is the
  type \<open>Ops\<close> of \<open>common.h\<close>; an entry of \<open>ops_arr\<close> is \<open>None\<close> until operations are
  stored in it. \<open>nexus_lock\<close> is \<open>True\<close> while the mutex is held. \<open>reg_hooks_arr\<close> has
  \<open>kMaxAppTid + 1\<close> slots. Of \<open>udp_config\<close> only the port is kept here; its drop
  probability is treated on its own below. The frequency, the host name, the padding,
  the socket and the threads are left out.
\<close>

record 'ops Nexus =
  mgmt_udp_port :: "16 word"
  num_bg_threads :: nat
  ops_arr :: "'ops option list"
  ops_registration_allowed :: bool
  nexus_lock :: bool
  reg_hooks_arr :: "addr list"

text \<open>The Nexus together with the hooks that Rpc threads have created, by address.\<close>

record 'ops system =
  nexus :: "'ops Nexus"
  hook_heap :: "addr \<Rightarrow> NexusHook option"

text \<open>
  \<open>NexusHook(uint8_t app_tid)\<close>: the constructor sets \<open>app_tid\<close> in its initialiser list
  and default-constructs the two lists. The entries of \<open>bg_req_list_arr\<close> are not
  initialised; they are \<open>nullptr\<close> here.
\<close>

definition NexusHook_ctor :: "nat \<Rightarrow> 8 word \<Rightarrow> NexusHook" where
  "NexusHook_ctor kMaxBgThreads tid =
     \<lparr>app_tid = tid, sm_pkt_list = [], bg_resp_list = [],
      bg_req_list_arr = replicate kMaxBgThreads nullptr\<rparr>"

text \<open>
  Modelled from the spec: the body of the constructor \<open>Nexus::Nexus\<close>, which the header
  only declares. The two members with an in-class initialiser keep it as the header
  writes it (\<open>ops_registration_allowed = true\<close>, \<open>reg_hooks_arr = {nullptr}\<close>); the array
  of operations is default-constructed, the lock is free, and the port and the number of
  background threads are the arguments. \<open>kMaxReqTypes\<close> and \<open>kMaxAppTid\<close> are constants
  of \<open>common.h\<close> and are parameters.
\<close>

definition Nexus_ctor :: "nat \<Rightarrow> nat \<Rightarrow> 16 word \<Rightarrow> nat \<Rightarrow> 'ops Nexus" where
  "Nexus_ctor kMaxReqTypes kMaxAppTid port n_bg =
     \<lparr>mgmt_udp_port = port, num_bg_threads = n_bg,
      ops_arr = replicate kMaxReqTypes None,
      ops_registration_allowed = True,
      nexus_lock = False,
      reg_hooks_arr = replicate (kMaxAppTid + 1) nullptr\<rparr>"

definition new_system :: "nat \<Rightarrow> nat \<Rightarrow> 16 word \<Rightarrow> nat \<Rightarrow> 'ops system" where
  "new_system kMaxReqTypes kMaxAppTid port n_bg =
     \<lparr>nexus = Nexus_ctor kMaxReqTypes kMaxAppTid port n_bg, hook_heap = (\<lambda>a. None)\<rparr>"

subsection \<open>The drop probability\<close>







subsection \<open>The lock and the registries\<close>

text \<open>
  \<open>nexus_lock.lock()\<close> and \<open>nexus_lock.unlock()\<close>. Locking a mutex that is held never
  returns in this sequential model: the failure \<open>LockHeld\<close>.
\<close>

definition lock_nexus :: "'ops system \<Rightarrow> error + 'ops system" where
  "lock_nexus s =
     (if nexus_lock (nexus s) then Inl LockHeld
      else Inr (s\<lparr>nexus := (nexus s)\<lparr>nexus_lock := True\<rparr>\<rparr>))"

definition unlock_nexus :: "'ops system \<Rightarrow> 'ops system" where
  "unlock_nexus s = s\<lparr>nexus := (nexus s)\<lparr>nexus_lock := False\<rparr>\<rparr>"

text \<open>
  Modelled from the spec: the body of \<open>bool Nexus::app_tid_exists(uint8_t)\<close> (the spec's
  \<open>identity_exists\<close>), which the header only declares: it locks, checks that the slot is
  not null, unlocks and returns the boolean. A read beyond the array is the failure
  \<open>OutOfBounds\<close>.
\<close>

definition app_tid_exists :: "8 word \<Rightarrow> 'ops system \<Rightarrow> (error + bool) \<times> 'ops system" where
  "app_tid_exists tid s =
     (case lock_nexus s of
        Inl e \<Rightarrow> (Inl e, s)
      | Inr s1 \<Rightarrow>
          if unat tid < length (reg_hooks_arr (nexus s1))
          then (let ret = (reg_hooks_arr (nexus s1) ! unat tid \<noteq> nullptr)
                in (Inr ret, unlock_nexus s1))
          else (Inl OutOfBounds, unlock_nexus s1))"

text \<open>
  The value that \<open>int Nexus::register_ops\<close> returns: 0 on success, an \<open>errno\<close> on
  failure. The \<open>errno\<close> is named by the error it stands for.
\<close>

datatype status = Success | Failure error

text \<open>
  Modelled from the spec: the body of \<open>int Nexus::register_ops(uint8_t, Ops)\<close>, which the
  header only declares. The request type must be within the valid range (the
  \<open>kMaxReqTypes\<close> entries of \<open>ops_arr\<close>) and registration must be open; otherwise the
  call returns \<open>InvalidRequestType\<close> or \<open>RegistrationClosed\<close>, checked in the order in
  which the spec names them. On success the operations are stored.
\<close>

definition register_ops :: "8 word \<Rightarrow> 'ops \<Rightarrow> 'ops system \<Rightarrow> status \<times> 'ops system" where
  "register_ops req_type app_ops s =
     (if \<not> unat req_type < length (ops_arr (nexus s)) then (Failure InvalidRequestType, s)
      else if \<not> ops_registration_allowed (nexus s) then (Failure RegistrationClosed, s)
      else (Success,
            s\<lparr>nexus := (nexus s)\<lparr>ops_arr := (ops_arr (nexus s))[unat req_type := Some app_ops]\<rparr>\<rparr>))"

text \<open>
  The entries of a hook's \<open>bg_req_list_arr\<close> after the Nexus has filled them in:
  entry \<open>i\<close> of a running background thread is the address of that thread's request
  list, \<open>req_list_addr i\<close>; the other entries stay as they are.
\<close>

definition fill_bg_req_list_arr :: "(nat \<Rightarrow> addr) \<Rightarrow> nat \<Rightarrow> addr list \<Rightarrow> addr list" where
  "fill_bg_req_list_arr req_list_addr n arr =
     map (\<lambda>i. if i < n then req_list_addr i else arr ! i) [0..<length arr]"

text \<open>
  Modelled from the spec: the body of \<open>void Nexus::register_hook(NexusHook *)\<close>, which the
  header only declares. It acquires the lock; if a hook occupies the identity slot it
  fails with \<open>DuplicateIdentity\<close>; otherwise it stores the hook pointer in the slot, closes
  the registration of operations and fills in the hook's request lists. The function is
  declared \<open>void\<close>: a call that succeeds gives no value (\<open>Inr ()\<close>), and a call that
  fails reports its error (\<open>Inl\<close>). A pointer to no hook and an identity beyond the array
  are errors as well.
\<close>

definition register_hook ::
  "(nat \<Rightarrow> addr) \<Rightarrow> addr \<Rightarrow> 'ops system \<Rightarrow> (error + unit) \<times> 'ops system" where
  "register_hook req_list_addr hook s =
     (case lock_nexus s of
        Inl e \<Rightarrow> (Inl e, s)
      | Inr s1 \<Rightarrow>
          (case (if hook = nullptr then None else hook_heap s1 hook) of
             None \<Rightarrow> (Inl InvalidPointer, unlock_nexus s1)
           | Some h \<Rightarrow>
               if \<not> unat (app_tid h) < length (reg_hooks_arr (nexus s1))
               then (Inl OutOfBounds, unlock_nexus s1)
               else if reg_hooks_arr (nexus s1) ! unat (app_tid h) \<noteq> nullptr
               then (Inl DuplicateIdentity, unlock_nexus s1)
               else (Inr (),
                     unlock_nexus
                       (s1\<lparr>nexus := (nexus s1)
                              \<lparr>reg_hooks_arr := (reg_hooks_arr (nexus s1))[unat (app_tid h) := hook],
                               ops_registration_allowed := False\<rparr>,
                           hook_heap := (hook_heap s1)
                              (hook \<mapsto> h\<lparr>bg_req_list_arr :=
                                 fill_bg_req_list_arr req_list_addr (num_bg_threads (nexus s1))
                                   (bg_req_list_arr h)\<rparr>)\<rparr>))))"

text \<open>
  Modelled from the spec: the body of \<open>void Nexus::unregister_hook(NexusHook *)\<close>, which
  the header only declares. It acquires the lock and removes the hook from its slot; it
  fails with \<open>NotRegistered\<close> if the hook is not there. Declared \<open>void\<close>, as
  \<open>register_hook\<close> is.
\<close>

definition unregister_hook :: "addr \<Rightarrow> 'ops system \<Rightarrow> (error + unit) \<times> 'ops system" where
  "unregister_hook hook s =
     (case lock_nexus s of
        Inl e \<Rightarrow> (Inl e, s)
      | Inr s1 \<Rightarrow>
          (case (if hook = nullptr then None else hook_heap s1 hook) of
             None \<Rightarrow> (Inl InvalidPointer, unlock_nexus s1)
           | Some h \<Rightarrow>
               if \<not> unat (app_tid h) < length (reg_hooks_arr (nexus s1))
               then (Inl OutOfBounds, unlock_nexus s1)
               else if reg_hooks_arr (nexus s1) ! unat (app_tid h) \<noteq> hook
               then (Inl NotRegistered, unlock_nexus s1)
               else (Inr (),
                     unlock_nexus
                       (s1\<lparr>nexus := (nexus s1)
                              \<lparr>reg_hooks_arr :=
                                 (reg_hooks_arr (nexus s1))[unat (app_tid h) := nullptr]\<rparr>\<rparr>))))"

text \<open>
  A pending datagram of the session management socket: whether the random draw against
  the drop probability discards it, the identity it is addressed to, and the packet.
\<close>

record datagram =
  dropped :: bool
  dest_tid :: "8 word"
  pkt :: addr

text \<open>
  Modelled from the spec: the body of \<open>void Nexus::session_mgnt_handler()\<close> (the spec's
  \<open>control_packet_dispatch\<close>), which the header only declares. A datagram that is not
  dropped is appended to the packet list of the hook registered for its destination,
  looked up under the lock; with no such hook it is discarded silently.
\<close>

definition route_pkt :: "datagram \<Rightarrow> 'ops system \<Rightarrow> 'ops system" where
  "route_pkt d s =
     (if unat (dest_tid d) < length (reg_hooks_arr (nexus s))
      then (let hook = reg_hooks_arr (nexus s) ! unat (dest_tid d) in
            case (if hook = nullptr then None else hook_heap s hook) of
              None \<Rightarrow> s
            | Some h \<Rightarrow>
                s\<lparr>hook_heap := (hook_heap s)(hook \<mapsto> h\<lparr>sm_pkt_list := sm_pkt_list h @ [pkt d]\<rparr>)\<rparr>)
      else s)"

fun session_mgnt_handler :: "datagram list \<Rightarrow> 'ops system \<Rightarrow> (error + unit) \<times> 'ops system" where
  "session_mgnt_handler [] s = (Inr (), s)"
| "session_mgnt_handler (d # ds) s =
     (if dropped d then session_mgnt_handler ds s
      else (case lock_nexus s of
              Inl e \<Rightarrow> (Inl e, s)
            | Inr s1 \<Rightarrow> session_mgnt_handler ds (unlock_nexus (route_pkt d s1))))"

subsection \<open>Sequences of calls\<close>

text \<open>
  The calls that Rpc threads and the signal handler make on the Nexus, and what each
  gives back: the value of a call that succeeded, or the error of a call that failed.
  \<open>step\<close> makes one call and \<open>run\<close> a sequence of calls, each on the system that the
  call before has left; \<open>f\<close> gives the addresses of the request lists of the background
  threads.
\<close>

datatype 'ops action =
    RegisterOps "8 word" 'ops
  | RegisterHook addr
  | UnregisterHook addr
  | AppTidExists "8 word"
  | SessionMgntHandler "datagram list"

datatype result = RetStatus status | RetBool bool | RetVoid | Failed error

fun void_result :: "error + unit \<Rightarrow> result" where
  "void_result (Inl e) = Failed e"
| "void_result (Inr _) = RetVoid"

fun bool_result :: "error + bool \<Rightarrow> result" where
  "bool_result (Inl e) = Failed e"
| "bool_result (Inr b) = RetBool b"

fun step :: "(nat \<Rightarrow> addr) \<Rightarrow> 'ops action \<Rightarrow> 'ops system \<Rightarrow> result \<times> 'ops system" where
  "step f (RegisterOps t app_ops) s = (RetStatus (fst (register_ops t app_ops s)), snd (register_ops t app_ops s))"
| "step f (RegisterHook hook) s = (void_result (fst (register_hook f hook s)), snd (register_hook f hook s))"
| "step f (UnregisterHook hook) s = (void_result (fst (unregister_hook hook s)), snd (unregister_hook hook s))"
| "step f (AppTidExists tid) s = (bool_result (fst (app_tid_exists tid s)), snd (app_tid_exists tid s))"
| "step f (SessionMgntHandler ds) s = (void_result (fst (session_mgnt_handler ds s)), snd (session_mgnt_handler ds s))"

fun run :: "(nat \<Rightarrow> addr) \<Rightarrow> 'ops action list \<Rightarrow> 'ops system \<Rightarrow> result list \<times> 'ops system" where
  "run f [] s = ([], s)"
| "run f (a # as) s = (fst (step f a s) # fst (run f as (snd (step f a s))), snd (run f as (snd (step f a s))))"

text \<open>A call of \<open>register_hook\<close> that succeeded.\<close>

fun hook_registered :: "'ops action \<Rightarrow> result \<Rightarrow> bool" where
  "hook_registered (RegisterHook hook) RetVoid = True"
| "hook_registered a r = False"

fun any_hook_registered :: "'ops action list \<Rightarrow> result list \<Rightarrow> bool" where
  "any_hook_registered (a # as) (r # rs) = (hook_registered a r \<or> any_hook_registered as rs)"
| "any_hook_registered as rs = False"

text \<open>
  The identities in a system: for each address of a hook, the \<open>app_tid\<close> of the hook
  there.
\<close>

definition identities :: "'ops system \<Rightarrow> addr \<Rightarrow> 8 word option" where
  "identities s a = map_option app_tid (hook_heap s a)"

subsection \<open>Concrete inputs\<close>

text \<open>
  A background thread with one work item of the Rpc with identity 3 on its request list,
  and the hook of that Rpc at address 300. \<open>kill_from n\<close> is a kill switch at address
  100 that reads \<open>true\<close> from the \<open>n\<close>-th evaluation of the loop condition on.
\<close>

definition item1 :: bg_work_item_t where
  "item1 = \<lparr>wi_app_tid = 3, session = 1, sslot = 2\<rparr>"

definition hook3 :: NexusHook where
  "hook3 = NexusHook_ctor 2 3"

definition world1 :: bg_world where
  "world1 =
     \<lparr>ctx = \<lparr>bg_kill_switch = 100, bg_thread_id = 0, bg_req_list = [item1],
             reg_hooks_arr_ptr = 200\<rparr>,
      hooks = (\<lambda>a. if a = 300 then Some hook3 else None),
      slept_us = 0\<rparr>"

definition kill_from :: "nat \<Rightarrow> addr \<Rightarrow> nat \<Rightarrow> bool" where
  "kill_from n p k = (p = 100 \<and> n \<le> k)"

text \<open>
  A \<open>gethostname\<close> for a machine whose state is its host name, if it can be read, and
  the buffers in memory: \<open>-1\<close> when the name cannot be read, else the name copied to the
  buffer, cut to the length, and 0.
\<close>

definition toy_gethostname ::
  "addr \<Rightarrow> nat \<Rightarrow> string option \<times> (addr \<Rightarrow> string) \<Rightarrow> int \<times> string option \<times> (addr \<Rightarrow> string)" where
  "toy_gethostname buf len os =
     (case fst os of
        None \<Rightarrow> (- 1, os)
      | Some name \<Rightarrow> (0, (fst os, (snd os)(buf := take len name))))"

text \<open>
  A Nexus with 8 request types, identities 0 to 254, port 31850 and two background
  threads, whose request lists are at \<open>req_list_addr0\<close>. Two hooks, both created with
  identity 3, are at the addresses 300 and 301. \<open>sys1\<close> is the system after the first
  of them has been registered, \<open>sys2\<close> after it has been unregistered again.
\<close>

definition req_list_addr0 :: "nat \<Rightarrow> addr" where
  "req_list_addr0 i = 1000 + 64 * i"

definition sys0 :: "nat system" where
  "sys0 = (new_system 8 254 31850 2)
            \<lparr>hook_heap := (\<lambda>a. if a = 300 \<or> a = 301 then Some hook3 else None)\<rparr>"

definition sys1 :: "nat system" where
  "sys1 = snd (register_hook req_list_addr0 300 sys0)"

definition sys2 :: "nat system" where
  "sys2 = snd (unregister_hook 300 sys1)"

definition acts1 :: "nat action list" where
  "acts1 = [RegisterOps 7 42, AppTidExists 3, RegisterHook 300, AppTidExists 3,
            RegisterOps 6 43, UnregisterHook 300, RegisterOps 6 43]"

section \<open>Properties\<close>

subsection \<open>The loop of a background thread\<close>

text \<open>
  If the switch reads \<open>false\<close> at the evaluations \<open>k, ..., k + n - 1\<close> of the loop condition
  and \<open>true\<close> at evaluation \<open>k + n\<close>, the loop returns after \<open>n\<close> sleeps and has changed
  nothing else.
\<close>

lemma bg_thread_loop_run:
  "(\<forall>j<n. \<not> reads (k + j)) \<Longrightarrow> reads (k + n) \<Longrightarrow>
   bg_thread_loop reads k w = Some (w\<lparr>slept_us := slept_us w + n * 200000\<rparr>)"
proof (induction n arbitrary: k w)
  case 0
  then show ?case by (simp add: bg_thread_loop.simps)
next
  case (Suc n)
  have nk: "\<not> reads k" using Suc.prems(1) [rule_format, of 0] by simp
  have "bg_thread_loop reads (Suc k) (usleep 200000 w)
      = Some ((usleep 200000 w)\<lparr>slept_us := slept_us (usleep 200000 w) + n * 200000\<rparr>)"
  proof (rule Suc.IH)
    show "\<forall>j<n. \<not> reads (Suc k + j)" using Suc.prems(1) by auto
    show "reads (Suc k + n)" using Suc.prems(2) by simp
  qed
  then show ?case using nk
    by (subst bg_thread_loop.simps) (simp add: usleep_def)
qed

lemma bg_thread_loop_exits:
  assumes "\<forall>j\<ge>n. reads j"
  shows "\<exists>m\<le>n - k. bg_thread_loop reads k w = Some (w\<lparr>slept_us := slept_us w + m * 200000\<rparr>)"
proof -
  define m where "m = (LEAST m. reads (k + m))"
  have ex: "reads (k + (n - k))" using assms by simp
  have rm: "reads (k + m)" unfolding m_def using ex by (rule LeastI)
  have le: "m \<le> n - k" unfolding m_def using ex by (rule Least_le)
  have before: "\<forall>j<m. \<not> reads (k + j)"
    unfolding m_def using not_less_Least by blast
  from bg_thread_loop_run [OF before rm] le show ?thesis by blast
qed

text \<open>
  C1, as the spec states it: the thread function takes every work item from the request
  list of its thread, runs the handler and appends the response to the response list of
  the hook with the item's identity. The code does not: on \<open>world1\<close>, with a switch that
  reads \<open>true\<close> at the third evaluation, the function returns after two sleeps, the item
  is still on the request list and the response list of the hook with identity 3 is
  empty.
\<close>

theorem bg_thread_func_ignores_item:
  "bg_thread_func (kill_from 2) world1 = Some (world1\<lparr>slept_us := 400000\<rparr>) \<and>
   bg_req_list (ctx (world1\<lparr>slept_us := 400000\<rparr>)) = [item1] \<and>
   hooks (world1\<lparr>slept_us := 400000\<rparr>) 300 = Some hook3 \<and>
   app_tid hook3 = wi_app_tid item1 \<and>
   bg_resp_list hook3 = []"
  by (simp add: bg_thread_func_def bg_thread_loop.simps kill_from_def world1_def usleep_def
      hook3_def NexusHook_ctor_def item1_def)

text \<open>
  C1, amended: the thread function only polls the kill switch, sleeping 200000
  microseconds after each evaluation that reads \<open>false\<close>. When the switch first reads
  \<open>true\<close> at evaluation \<open>n\<close>, the function returns after \<open>n\<close> sleeps, and the request
  list of the thread and every hook are as they were: no item is taken from the list, no
  handler runs and no response is appended.
\<close>

theorem bg_thread_func_only_polls:
  assumes "\<forall>j<n. \<not> vol (bg_kill_switch (ctx w)) j" and "vol (bg_kill_switch (ctx w)) n"
  shows "bg_thread_func vol w = Some (w\<lparr>slept_us := slept_us w + n * 200000\<rparr>)"
  using bg_thread_loop_run [of n "vol (bg_kill_switch (ctx w))" 0 w] assms
  by (simp add: bg_thread_func_def)

theorem bg_thread_func_only_polls_witness:
  "bg_thread_func (kill_from 3) world1 = Some (world1\<lparr>slept_us := 600000\<rparr>)"
  using bg_thread_func_only_polls [of 3 "kill_from 3" world1]
  by (simp add: kill_from_def world1_def)

text \<open>
  C6: once the kill switch is \<open>true\<close> (it reads \<open>true\<close> at every evaluation from the
  \<open>n\<close>-th on), the thread function returns, after at most \<open>n\<close> sleeps; a loop that is at
  its \<open>k\<close>-th evaluation returns after at most \<open>n - k\<close> more sleeps, so with none once the
  switch is set. The request list is as it was when the function returns: no item is
  taken from it, before or after the switch is observed.
\<close>

theorem bg_thread_func_exits_after_kill:
  assumes "\<forall>j\<ge>n. vol (bg_kill_switch (ctx w)) j"
  shows "(\<exists>m\<le>n. bg_thread_func vol w = Some (w\<lparr>slept_us := slept_us w + m * 200000\<rparr>)) \<and>
         (\<exists>m\<le>n - k. bg_thread_loop (vol (bg_kill_switch (ctx w))) k w0 =
             Some (w0\<lparr>slept_us := slept_us w0 + m * 200000\<rparr>))"
proof
  show "\<exists>m\<le>n. bg_thread_func vol w = Some (w\<lparr>slept_us := slept_us w + m * 200000\<rparr>)"
    using bg_thread_loop_exits [OF assms, of 0 w] by (simp add: bg_thread_func_def)
  show "\<exists>m\<le>n - k. bg_thread_loop (vol (bg_kill_switch (ctx w))) k w0 =
             Some (w0\<lparr>slept_us := slept_us w0 + m * 200000\<rparr>)"
    by (rule bg_thread_loop_exits [OF assms])
qed

theorem bg_thread_func_exits_after_kill_witness:
  "bg_thread_func (kill_from 1) world1 \<noteq> None \<and>
   bg_thread_loop (kill_from 1 100) 5 world1 = Some world1"
  using bg_thread_func_exits_after_kill [of 1 "kill_from 1" world1 5 world1]
  by (auto simp add: kill_from_def world1_def)

subsection \<open>The host name\<close>

text \<open>
  C10: for a buffer that is not null, \<open>get_hostname\<close> returns what \<open>gethostname\<close> returns
  for that buffer and the length \<open>kMaxHostnameLen\<close> (0 on success, -1 on error), and
  leaves the state as \<open>gethostname\<close> leaves it; for a null buffer the assertion fails
  and \<open>gethostname\<close> is not called.
\<close>

theorem get_hostname_is_gethostname:
  "(hostname \<noteq> nullptr \<longrightarrow>
      get_hostname gethostname kMaxHostnameLen hostname os =
        Inr (gethostname hostname kMaxHostnameLen os)) \<and>
   get_hostname gethostname kMaxHostnameLen nullptr os = Inl AssertionFailed"
  by (simp add: get_hostname_def)

theorem get_hostname_is_gethostname_witness:
  "(5::addr) \<noteq> nullptr \<and>
   get_hostname toy_gethostname 64 5 (Some ''node-1'', (\<lambda>a. [])) =
     Inr (0, Some ''node-1'', (\<lambda>a. [])(5 := ''node-1'')) \<and>
   get_hostname toy_gethostname 64 5 (None, (\<lambda>a. [])) = Inr (- 1, None, (\<lambda>a. [])) \<and>
   get_hostname toy_gethostname 64 nullptr (Some ''node-1'', (\<lambda>a. [])) = Inl AssertionFailed"
  using get_hostname_is_gethostname [of 5 toy_gethostname 64 "(Some ''node-1'', (\<lambda>a. []))"]
    get_hostname_is_gethostname [of 5 toy_gethostname 64 "(None, (\<lambda>a. []))"]
  by (simp add: toy_gethostname_def nullptr_def)

subsection \<open>The lock\<close>

lemma unlock_lock: "lock_nexus s = Inr s1 \<Longrightarrow> unlock_nexus s1 = s"
  by (auto simp add: lock_nexus_def unlock_nexus_def split: if_splits)

lemma lock_nexus_free: "\<not> nexus_lock (nexus s) \<Longrightarrow>
  lock_nexus s = Inr (s\<lparr>nexus := (nexus s)\<lparr>nexus_lock := True\<rparr>\<rparr>)"
  by (simp add: lock_nexus_def)

lemma lock_nexus_held: "nexus_lock (nexus s) \<Longrightarrow> lock_nexus s = Inl LockHeld"
  by (simp add: lock_nexus_def)

lemma lock_nexus_fields:
  "lock_nexus s = Inr s1 \<Longrightarrow>
     hook_heap s1 = hook_heap s \<and> reg_hooks_arr (nexus s1) = reg_hooks_arr (nexus s) \<and>
     ops_arr (nexus s1) = ops_arr (nexus s) \<and>
     ops_registration_allowed (nexus s1) = ops_registration_allowed (nexus s) \<and>
     num_bg_threads (nexus s1) = num_bg_threads (nexus s) \<and> \<not> nexus_lock (nexus s)"
  by (auto simp add: lock_nexus_def split: if_splits)

lemma unlock_nexus_fields [simp]:
  "hook_heap (unlock_nexus s) = hook_heap s"
  "reg_hooks_arr (nexus (unlock_nexus s)) = reg_hooks_arr (nexus s)"
  "ops_arr (nexus (unlock_nexus s)) = ops_arr (nexus s)"
  "ops_registration_allowed (nexus (unlock_nexus s)) = ops_registration_allowed (nexus s)"
  "num_bg_threads (nexus (unlock_nexus s)) = num_bg_threads (nexus s)"
  "nexus_lock (nexus (unlock_nexus s)) = False"
  by (simp_all add: unlock_nexus_def)

subsection \<open>Evaluating the concrete system\<close>

lemmas eval_defs = sys0_def new_system_def Nexus_ctor_def register_hook_def
  unregister_hook_def register_ops_def app_tid_exists_def lock_nexus_def unlock_nexus_def
  hook3_def NexusHook_ctor_def nullptr_def fill_bg_req_list_arr_def req_list_addr0_def

lemma run_acts1:
  "fst (run req_list_addr0 acts1 sys0) =
     [RetStatus Success, RetBool False, RetVoid, RetBool True,
      RetStatus (Failure RegistrationClosed), RetVoid, RetStatus (Failure RegistrationClosed)]"
  by (simp add: acts1_def eval_defs)

lemma sys1_closed: "\<not> ops_registration_allowed (nexus sys1)"
  by (simp add: sys1_def eval_defs)

lemma register_300: "fst (register_hook req_list_addr0 300 sys0) = Inr ()"
  by (simp add: eval_defs)

lemma sys1_eq: "register_hook req_list_addr0 300 sys0 = (Inr (), sys1)"
  using register_300 by (simp add: sys1_def prod_eq_iff)

lemma heap_sys0: "hook_heap sys0 300 = Some hook3 \<and> hook_heap sys0 301 = Some hook3"
  by (simp add: sys0_def)

lemma heap_sys1: "hook_heap sys1 300 = Some (hook3\<lparr>bg_req_list_arr := [1000, 1064]\<rparr>) \<and>
  hook_heap sys1 301 = Some hook3"
  by (simp add: sys1_def eval_defs upt_rec)

lemma sys2_eq: "unregister_hook 300 sys1 = (Inr (), sys2)"
  by (simp add: sys2_def prod_eq_iff) (simp add: sys1_def eval_defs)

lemma app_tid_hook3: "app_tid hook3 = 3"
  by (simp add: hook3_def NexusHook_ctor_def)

subsection \<open>Construction\<close>

text \<open>
  C8: right after the construction of the Nexus, \<open>reg_hooks_arr\<close> has the slots 0 to
  \<open>kMaxAppTid\<close>, every one of them is null, and \<open>ops_registration_allowed\<close> is true: no
  hook is registered and the registration of operations is open.
\<close>

theorem Nexus_ctor_initial:
  "length (reg_hooks_arr (Nexus_ctor kMaxReqTypes kMaxAppTid port n)) = kMaxAppTid + 1 \<and>
   (\<forall>i\<le>kMaxAppTid. reg_hooks_arr (Nexus_ctor kMaxReqTypes kMaxAppTid port n) ! i = nullptr) \<and>
   ops_registration_allowed (Nexus_ctor kMaxReqTypes kMaxAppTid port n)"
  by (simp add: Nexus_ctor_def less_Suc_eq_le del: replicate.simps)

theorem Nexus_ctor_initial_witness:
  "length (reg_hooks_arr (Nexus_ctor 8 254 31850 2 :: nat Nexus)) = 255 \<and>
   reg_hooks_arr (Nexus_ctor 8 254 31850 2 :: nat Nexus) ! 254 = nullptr \<and>
   reg_hooks_arr (Nexus_ctor 8 254 31850 2 :: nat Nexus) ! 0 = nullptr \<and>
   ops_registration_allowed (Nexus_ctor 8 254 31850 2 :: nat Nexus)"
  using Nexus_ctor_initial [of 8 254 31850 2, where ?'a = nat]
  by auto





subsection \<open>Registering operations\<close>

text \<open>
  C3: a call of \<open>register_ops\<close> with a request type in the valid range, while registration
  is open, stores the operations and returns success; with a request type out of range
  it returns the error \<open>InvalidRequestType\<close>; with a request type in range after
  registration has been closed it returns the error \<open>RegistrationClosed\<close>. The two errors
  are distinct, and a failed call changes nothing.
\<close>

theorem register_ops_cases:
  "(unat req_type < length (ops_arr (nexus s)) \<and> ops_registration_allowed (nexus s) \<longrightarrow>
      fst (register_ops req_type app_ops s) = Success \<and>
      ops_arr (nexus (snd (register_ops req_type app_ops s))) ! unat req_type = Some app_ops) \<and>
   (\<not> unat req_type < length (ops_arr (nexus s)) \<longrightarrow>
      register_ops req_type app_ops s = (Failure InvalidRequestType, s)) \<and>
   (unat req_type < length (ops_arr (nexus s)) \<and> \<not> ops_registration_allowed (nexus s) \<longrightarrow>
      register_ops req_type app_ops s = (Failure RegistrationClosed, s)) \<and>
   Failure InvalidRequestType \<noteq> Failure RegistrationClosed"
  by (simp add: register_ops_def)

theorem register_ops_cases_witness:
  "fst (register_ops 7 (42::nat) sys0) = Success \<and>
   ops_arr (nexus (snd (register_ops 7 (42::nat) sys0))) ! 7 = Some 42 \<and>
   register_ops 8 (42::nat) sys0 = (Failure InvalidRequestType, sys0) \<and>
   register_ops 7 (42::nat) sys1 = (Failure RegistrationClosed, sys1)"
  using register_ops_cases [of 7 sys0 42] register_ops_cases [of 8 sys0 42]
    register_ops_cases [of 7 sys1 42]
  by (simp add: sys1_def sys0_def new_system_def Nexus_ctor_def register_hook_def lock_nexus_def
      unlock_nexus_def hook3_def NexusHook_ctor_def nullptr_def)

subsection \<open>The registration flag\<close>

lemma register_ops_flag:
  "ops_registration_allowed (nexus (snd (register_ops t app_ops s))) =
     ops_registration_allowed (nexus s)"
  by (simp add: register_ops_def)

lemma register_ops_closed:
  "\<not> ops_registration_allowed (nexus s) \<Longrightarrow>
     fst (register_ops t app_ops s) \<noteq> Success \<and> snd (register_ops t app_ops s) = s"
  by (simp add: register_ops_def)

lemma register_hook_flag:
  "ops_registration_allowed (nexus (snd (register_hook f hook s))) =
     (ops_registration_allowed (nexus s) \<and> fst (register_hook f hook s) \<noteq> Inr ())"
  by (auto simp add: register_hook_def dest: lock_nexus_fields split: sum.splits option.splits)

lemma register_hook_ops_arr:
  "ops_arr (nexus (snd (register_hook f hook s))) = ops_arr (nexus s)"
  by (auto simp add: register_hook_def dest: lock_nexus_fields split: sum.splits option.splits)

lemma unregister_hook_flag:
  "ops_registration_allowed (nexus (snd (unregister_hook hook s))) =
     ops_registration_allowed (nexus s)"
  by (auto simp add: unregister_hook_def dest: lock_nexus_fields split: sum.splits option.splits)

lemma unregister_hook_ops_arr:
  "ops_arr (nexus (snd (unregister_hook hook s))) = ops_arr (nexus s)"
  by (auto simp add: unregister_hook_def dest: lock_nexus_fields split: sum.splits option.splits)

lemma app_tid_exists_state:
  "snd (app_tid_exists tid s) = s"
  by (auto simp add: app_tid_exists_def Let_def dest: unlock_lock split: sum.splits)

lemma route_pkt_nexus: "nexus (route_pkt d s) = nexus s"
  by (simp add: route_pkt_def Let_def split: option.splits)

lemma session_mgnt_handler_nexus:
  "ops_registration_allowed (nexus (snd (session_mgnt_handler ds s))) =
     ops_registration_allowed (nexus s) \<and>
   ops_arr (nexus (snd (session_mgnt_handler ds s))) = ops_arr (nexus s)"
proof (induction ds arbitrary: s)
  case Nil
  show ?case by simp
next
  case (Cons d ds)
  show ?case
  proof (cases "dropped d")
    case True
    then show ?thesis using Cons.IH [of s] by simp
  next
    case False
    show ?thesis
    proof (cases "lock_nexus s")
      case (Inl e)
      then show ?thesis using False by simp
    next
      case (Inr s1)
      have "nexus (unlock_nexus (route_pkt d s1)) = (nexus s1)\<lparr>nexus_lock := False\<rparr>"
        by (simp add: unlock_nexus_def route_pkt_nexus)
      then show ?thesis
        using False Inr Cons.IH [of "unlock_nexus (route_pkt d s1)"] lock_nexus_fields [OF Inr]
        by simp
    qed
  qed
qed

lemma step_flag:
  "ops_registration_allowed (nexus (snd (step f a s))) =
     (ops_registration_allowed (nexus s) \<and> \<not> hook_registered a (fst (step f a s)))"
proof (cases a)
  case (RegisterOps t app_ops)
  then show ?thesis by (simp add: register_ops_flag)
next
  case (RegisterHook hook)
  then show ?thesis
    by (cases "fst (register_hook f hook s)") (simp_all add: register_hook_flag)
next
  case (UnregisterHook hook)
  then show ?thesis
    by (cases "fst (unregister_hook hook s)") (simp_all add: unregister_hook_flag)
next
  case (AppTidExists tid)
  then show ?thesis
    by (cases "fst (app_tid_exists tid s)") (simp_all add: app_tid_exists_state)
next
  case (SessionMgntHandler ds)
  then show ?thesis
    by (cases "fst (session_mgnt_handler ds s)") (simp_all add: session_mgnt_handler_nexus)
qed

lemma step_ops_arr_closed:
  "\<not> ops_registration_allowed (nexus s) \<Longrightarrow> ops_arr (nexus (snd (step f a s))) = ops_arr (nexus s)"
  by (cases a)
    (simp_all add: register_ops_closed register_hook_ops_arr unregister_hook_ops_arr
      app_tid_exists_state session_mgnt_handler_nexus)

lemma run_flag:
  "ops_registration_allowed (nexus (snd (run f acts s))) =
     (ops_registration_allowed (nexus s) \<and> \<not> any_hook_registered acts (fst (run f acts s)))"
proof (induction acts arbitrary: s)
  case Nil
  show ?case by simp
next
  case (Cons a acts)
  show ?case using Cons.IH [of "snd (step f a s)"] step_flag [of f a s] by auto
qed

lemma run_ops_arr_closed:
  "\<not> ops_registration_allowed (nexus s) \<Longrightarrow> ops_arr (nexus (snd (run f acts s))) = ops_arr (nexus s)"
proof (induction acts arbitrary: s)
  case Nil
  show ?case by simp
next
  case (Cons a acts)
  have closed: "\<not> ops_registration_allowed (nexus (snd (step f a s)))"
    using Cons.prems step_flag [of f a s] by simp
  show ?case
    using Cons.IH [OF closed] step_ops_arr_closed [OF Cons.prems, of f a] by simp
qed

text \<open>
  C4: \<open>ops_registration_allowed\<close> is true after construction. After any sequence of
  calls it is true exactly if it was true before and no \<open>register_hook\<close> among them
  succeeded: a \<open>register_hook\<close> that succeeds leaves it false, and no call makes it
  true again. While it is false, \<open>register_ops\<close> does not return success and changes
  nothing, and no sequence of calls changes \<open>ops_arr\<close>.
\<close>

theorem registration_closes_for_good:
  "ops_registration_allowed (nexus (new_system kMaxReqTypes kMaxAppTid port n :: 'ops system)) \<and>
   (ops_registration_allowed (nexus (snd (run f acts (s :: 'ops system)))) \<longleftrightarrow>
      ops_registration_allowed (nexus s) \<and> \<not> any_hook_registered acts (fst (run f acts s))) \<and>
   (fst (register_hook f hook s) = Inr () \<longrightarrow>
      \<not> ops_registration_allowed (nexus (snd (register_hook f hook s)))) \<and>
   (\<not> ops_registration_allowed (nexus s) \<longrightarrow>
      fst (register_ops req_type app_ops s) \<noteq> Success \<and>
      snd (register_ops req_type app_ops s) = s \<and>
      ops_arr (nexus (snd (run f acts s))) = ops_arr (nexus s))"
  using run_flag [of f acts s] register_hook_flag [of f hook s]
    register_ops_closed [of s req_type app_ops] run_ops_arr_closed [of s f acts]
  by (simp add: new_system_def Nexus_ctor_def)

theorem registration_closes_for_good_witness:
  "ops_registration_allowed (nexus (new_system 8 254 31850 2 :: nat system)) \<and>
   ops_registration_allowed (nexus sys0) \<and>
   any_hook_registered acts1 (fst (run req_list_addr0 acts1 sys0)) \<and>
   \<not> ops_registration_allowed (nexus (snd (run req_list_addr0 acts1 sys0))) \<and>
   fst (register_hook req_list_addr0 300 sys0) = Inr () \<and>
   \<not> ops_registration_allowed (nexus sys1) \<and>
   fst (register_ops 7 (42::nat) sys1) \<noteq> Success \<and>
   snd (register_ops 7 (42::nat) sys1) = sys1"
  using registration_closes_for_good [of 8 254 31850 2 req_list_addr0 acts1 sys0 300 7 42]
    registration_closes_for_good [of 8 254 31850 2 req_list_addr0 "[]" sys1 300 7 42]
    run_acts1 sys1_closed register_300
  by (simp add: acts1_def)

subsection \<open>Looking up an identity\<close>

lemma app_tid_exists_free:
  "\<not> nexus_lock (nexus s) \<Longrightarrow> unat tid < length (reg_hooks_arr (nexus s)) \<Longrightarrow>
   app_tid_exists tid s = (Inr (reg_hooks_arr (nexus s) ! unat tid \<noteq> nullptr), s)"
  using unlock_lock [OF lock_nexus_free, of s]
  by (simp add: app_tid_exists_def lock_nexus_free)

lemma register_hook_Inr:
  assumes "register_hook f hook s = (Inr (), s')" and "hook_heap s hook = Some h"
  shows "\<not> nexus_lock (nexus s') \<and> unat (app_tid h) < length (reg_hooks_arr (nexus s')) \<and>
         reg_hooks_arr (nexus s') ! unat (app_tid h) = hook \<and> hook \<noteq> nullptr \<and>
         reg_hooks_arr (nexus s) ! unat (app_tid h) = nullptr"
  using assms
  by (auto simp add: register_hook_def dest!: lock_nexus_fields
      split: sum.splits option.splits if_splits)

lemma unregister_hook_Inr:
  assumes "unregister_hook hook s = (Inr (), s')" and "hook_heap s hook = Some h"
  shows "\<not> nexus_lock (nexus s') \<and> unat (app_tid h) < length (reg_hooks_arr (nexus s')) \<and>
         reg_hooks_arr (nexus s') ! unat (app_tid h) = nullptr \<and>
         reg_hooks_arr (nexus s) ! unat (app_tid h) = hook"
  using assms
  by (auto simp add: unregister_hook_def dest!: lock_nexus_fields
      split: sum.splits option.splits if_splits)

text \<open>
  C7: \<open>app_tid_exists\<close> returns false for an identity whose slot holds no hook, true
  right after a \<open>register_hook\<close> that succeeded for a hook with that identity, and false
  again right after an \<open>unregister_hook\<close> of that hook that succeeded. It takes the lock
  itself and has released it when it returns: called with the lock held it cannot go on,
  and in every case it leaves the system, the lock included, as it found it.
\<close>

theorem app_tid_exists_tracks_registration:
  "(\<not> nexus_lock (nexus s) \<and> unat tid < length (reg_hooks_arr (nexus s)) \<and>
      reg_hooks_arr (nexus s) ! unat tid = nullptr \<longrightarrow>
      app_tid_exists tid s = (Inr False, s)) \<and>
   (register_hook f hook s = (Inr (), s') \<and> hook_heap s hook = Some h \<longrightarrow>
      app_tid_exists (app_tid h) s' = (Inr True, s')) \<and>
   (unregister_hook hook s = (Inr (), s') \<and> hook_heap s hook = Some h \<longrightarrow>
      app_tid_exists (app_tid h) s' = (Inr False, s')) \<and>
   (nexus_lock (nexus s) \<longrightarrow> app_tid_exists tid s = (Inl LockHeld, s)) \<and>
   snd (app_tid_exists tid s) = s"
proof (intro conjI impI)
  assume "\<not> nexus_lock (nexus s) \<and> unat tid < length (reg_hooks_arr (nexus s)) \<and>
      reg_hooks_arr (nexus s) ! unat tid = nullptr"
  then show "app_tid_exists tid s = (Inr False, s)"
    by (simp add: app_tid_exists_free)
next
  assume a: "register_hook f hook s = (Inr (), s') \<and> hook_heap s hook = Some h"
  from register_hook_Inr [of f hook s s' h] a
  show "app_tid_exists (app_tid h) s' = (Inr True, s')"
    by (simp add: app_tid_exists_free)
next
  assume a: "unregister_hook hook s = (Inr (), s') \<and> hook_heap s hook = Some h"
  from unregister_hook_Inr [of hook s s' h] a
  show "app_tid_exists (app_tid h) s' = (Inr False, s')"
    by (simp add: app_tid_exists_free)
next
  assume "nexus_lock (nexus s)"
  then show "app_tid_exists tid s = (Inl LockHeld, s)"
    by (simp add: app_tid_exists_def lock_nexus_held)
next
  show "snd (app_tid_exists tid s) = s"
    by (rule app_tid_exists_state)
qed

theorem app_tid_exists_tracks_registration_witness:
  "app_tid_exists 3 sys0 = (Inr False, sys0) \<and>
   register_hook req_list_addr0 300 sys0 = (Inr (), sys1) \<and>
   app_tid_exists 3 sys1 = (Inr True, sys1) \<and>
   unregister_hook 300 sys1 = (Inr (), sys2) \<and>
   app_tid_exists 3 sys2 = (Inr False, sys2) \<and>
   app_tid_exists 3 (sys1\<lparr>nexus := (nexus sys1)\<lparr>nexus_lock := True\<rparr>\<rparr>) =
     (Inl LockHeld, sys1\<lparr>nexus := (nexus sys1)\<lparr>nexus_lock := True\<rparr>\<rparr>)"
  using app_tid_exists_tracks_registration [of sys0 3 req_list_addr0 300 sys1 hook3]
    app_tid_exists_tracks_registration
      [of sys1 3 req_list_addr0 300 sys2 "hook3\<lparr>bg_req_list_arr := [1000, 1064]\<rparr>"]
    app_tid_exists_tracks_registration
      [of "sys1\<lparr>nexus := (nexus sys1)\<lparr>nexus_lock := True\<rparr>\<rparr>" 3 req_list_addr0 300 sys2 hook3]
    sys1_eq sys2_eq heap_sys0 heap_sys1 app_tid_hook3
  by (simp add: sys0_def new_system_def Nexus_ctor_def nullptr_def)

subsection \<open>Misuse of hooks\<close>



subsection \<open>The identity of a hook\<close>

lemma bg_thread_loop_frame:
  assumes ret: "bg_thread_loop reads k w = Some w'"
  shows "hooks w' = hooks w \<and> ctx w' = ctx w"
proof (rule bg_thread_loop.raw_induct
    [where P = "\<lambda>reads k w w'. hooks w' = hooks w \<and> ctx w' = ctx w"
       and reads = reads and k = k and w = w and y = w'])
  fix loop :: "(nat \<Rightarrow> bool) \<Rightarrow> nat \<Rightarrow> bg_world \<Rightarrow> bg_world option"
  fix r j u u'
  assume IH: "\<And>k w b y. loop k w b = Some y \<Longrightarrow> hooks y = hooks b \<and> ctx y = ctx b"
    and eq: "(if r j \<noteq> True then loop r (Suc j) (usleep 200000 u) else Some u) = Some u'"
  show "hooks u' = hooks u \<and> ctx u' = ctx u"
  proof (cases "r j")
    case True
    then show ?thesis using eq by simp
  next
    case False
    then have "loop r (Suc j) (usleep 200000 u) = Some u'" using eq by simp
    from IH [OF this] show ?thesis by (simp add: usleep_def)
  qed
next
  show "bg_thread_loop reads k w = Some w'" by (rule ret)
qed

lemma register_ops_identities:
  "identities (snd (register_ops t app_ops s)) = identities s"
  by (rule ext) (simp add: identities_def register_ops_def)

lemma register_hook_identities:
  "identities (snd (register_hook f hook s)) = identities s"
  by (rule ext)
    (auto simp add: identities_def register_hook_def dest!: lock_nexus_fields
      split: sum.splits option.splits if_splits)

lemma unregister_hook_identities:
  "identities (snd (unregister_hook hook s)) = identities s"
  by (rule ext)
    (auto simp add: identities_def unregister_hook_def dest!: lock_nexus_fields
      split: sum.splits option.splits if_splits)

lemma route_pkt_identities: "identities (route_pkt d s) = identities s"
  by (rule ext)
    (auto simp add: identities_def route_pkt_def Let_def split: option.splits if_splits)

lemma identities_unlock: "identities (unlock_nexus s) = identities s"
  by (rule ext) (simp add: identities_def)

lemma identities_lock: "lock_nexus s = Inr s1 \<Longrightarrow> identities s1 = identities s"
  by (rule ext) (simp add: identities_def lock_nexus_fields)

lemma session_mgnt_handler_identities:
  "identities (snd (session_mgnt_handler ds s)) = identities s"
proof (induction ds arbitrary: s)
  case Nil
  show ?case by simp
next
  case (Cons d ds)
  show ?case
  proof (cases "dropped d")
    case True
    then show ?thesis using Cons.IH [of s] by simp
  next
    case False
    show ?thesis
    proof (cases "lock_nexus s")
      case (Inl e)
      then show ?thesis using False by simp
    next
      case (Inr s1)
      then show ?thesis
        using False Cons.IH [of "unlock_nexus (route_pkt d s1)"]
        by (simp add: identities_unlock route_pkt_identities identities_lock)
    qed
  qed
qed

lemma step_identities: "identities (snd (step f a s)) = identities s"
  by (cases a)
    (simp_all add: register_ops_identities register_hook_identities unregister_hook_identities
      app_tid_exists_state session_mgnt_handler_identities)

lemma run_identities: "identities (snd (run f acts s)) = identities s"
proof (induction acts arbitrary: s)
  case Nil
  show ?case by simp
next
  case (Cons a acts)
  show ?case using Cons.IH [of "snd (step f a s)"] by (simp add: step_identities)
qed

text \<open>
  C9: the constructor of a hook sets its \<open>app_tid\<close>, and nothing changes it afterwards:
  after any sequence of calls on the Nexus every hook has the identity it had before,
  and the function of a background thread leaves the hooks as they are.
\<close>

theorem app_tid_is_fixed:
  "app_tid (NexusHook_ctor kMaxBgThreads tid) = tid \<and>
   identities (snd (run f acts s)) = identities s \<and>
   (hook_heap s a = Some h \<longrightarrow>
      (\<exists>h'. hook_heap (snd (run f acts s)) a = Some h' \<and> app_tid h' = app_tid h)) \<and>
   (bg_thread_func vol w = Some w' \<longrightarrow> hooks w' = hooks w)"
proof (intro conjI impI)
  show "app_tid (NexusHook_ctor kMaxBgThreads tid) = tid"
    by (simp add: NexusHook_ctor_def)
  show ids: "identities (snd (run f acts s)) = identities s"
    by (rule run_identities)
  show "\<exists>h'. hook_heap (snd (run f acts s)) a = Some h' \<and> app_tid h' = app_tid h"
    if "hook_heap s a = Some h"
    using that fun_cong [OF ids, of a] by (auto simp add: identities_def)
  show "hooks w' = hooks w" if "bg_thread_func vol w = Some w'"
    using that bg_thread_loop_frame [of "vol (bg_kill_switch (ctx w))" 0 w w']
    by (simp add: bg_thread_func_def)
qed

theorem app_tid_is_fixed_witness:
  "app_tid (NexusHook_ctor 2 3) = 3 \<and>
   hook_heap sys0 300 = Some hook3 \<and>
   identities (snd (run req_list_addr0 acts1 sys0)) 300 = Some 3 \<and>
   bg_thread_func (kill_from 2) world1 = Some (world1\<lparr>slept_us := 400000\<rparr>) \<and>
   hooks (world1\<lparr>slept_us := 400000\<rparr>) = hooks world1"
  using app_tid_is_fixed [of 2 3 req_list_addr0 acts1 sys0 300 hook3 "kill_from 2" world1
      "world1\<lparr>slept_us := 400000\<rparr>"]
    heap_sys0 app_tid_hook3
  by (simp add: identities_def)
    (simp add: bg_thread_func_def bg_thread_loop.simps kill_from_def world1_def usleep_def)

end
